theory Spec2Isabelle
  imports Main
begin

section \<open>Values read from the service\<close>

text \<open>
  The plugin consumes whatever \<^verbatim>\<open>json.loads\<close> makes of a response body, and reads it
  with Python's dynamically typed operations. A parsed body is a value of \<open>json\<close>; a
  dictionary is an association list with distinct keys, read with \<open>map_of\<close>. JSON
  numbers are integers here
  (fractional numbers are outside the model), and \<open>JNull\<close> is Python's \<^verbatim>\<open>None\<close>.
\<close>

datatype json =
    JNull
  | JBool bool
  | JInt int
  | JStr string
  | JList "json list"
  | JDict "(string \<times> json) list"

text \<open>The exceptions that event handling can raise.\<close>

datatype error =
    KeyError
  | TypeError
  | AttributeError
  | ValueError
  | UnboundLocalError
  | AddrFormatError

datatype outcome = Returned | Raised error

text \<open>\<^verbatim>\<open>s.startswith(p)\<close> and the substring test \<^verbatim>\<open>p in s\<close> on strings.\<close>

fun startswith :: "string \<Rightarrow> string \<Rightarrow> bool" where
  "startswith s [] = True"
| "startswith [] (p # ps) = False"
| "startswith (c # cs) (p # ps) = (c = p \<and> startswith cs ps)"

fun substring :: "string \<Rightarrow> string \<Rightarrow> bool" where
  "substring p [] = (p = [])"
| "substring p (c # cs) = (startswith (c # cs) p \<or> substring p cs)"

text \<open>
  \<^verbatim>\<open>k in v\<close> for a string \<open>k\<close>: key membership on a dictionary, element membership on a
  list, substring on a string, \<^verbatim>\<open>TypeError\<close> on anything else.
\<close>

fun py_in :: "string \<Rightarrow> json \<Rightarrow> error + bool" where
  "py_in k (JDict kvs) = Inr (map_of kvs k \<noteq> None)"
| "py_in k (JList xs) = Inr (JStr k \<in> set xs)"
| "py_in k (JStr s) = Inr (substring k s)"
| "py_in k v = Inl TypeError"

text \<open>\<^verbatim>\<open>v[k]\<close> for a string \<open>k\<close>: only a dictionary can be indexed by a string.\<close>

fun py_getitem :: "json \<Rightarrow> string \<Rightarrow> error + json" where
  "py_getitem (JDict kvs) k = (case map_of kvs k of None \<Rightarrow> Inl KeyError | Some v \<Rightarrow> Inr v)"
| "py_getitem v k = Inl TypeError"

text \<open>\<^verbatim>\<open>v.get(k, d)\<close>: only a dictionary has the method.\<close>

fun py_get :: "json \<Rightarrow> string \<Rightarrow> json \<Rightarrow> error + json" where
  "py_get (JDict kvs) k d = Inr (case map_of kvs k of None \<Rightarrow> d | Some v \<Rightarrow> v)"
| "py_get v k d = Inl AttributeError"

text \<open>\<^verbatim>\<open>for x in v\<close>: the elements of a list, the keys of a dictionary, the characters of a string.\<close>

fun py_iter :: "json \<Rightarrow> error + json list" where
  "py_iter (JList xs) = Inr xs"
| "py_iter (JDict kvs) = Inr (map (\<lambda>kv. JStr (fst kv)) kvs)"
| "py_iter (JStr s) = Inr (map (\<lambda>c. JStr [c]) s)"
| "py_iter v = Inl TypeError"

text \<open>Truth value of \<^verbatim>\<open>if v:\<close>.\<close>

fun truthy :: "json \<Rightarrow> bool" where
  "truthy JNull = False"
| "truthy (JBool b) = b"
| "truthy (JInt n) = (n \<noteq> 0)"
| "truthy (JStr s) = (s \<noteq> [])"
| "truthy (JList xs) = (xs \<noteq> [])"
| "truthy (JDict kvs) = (kvs \<noteq> [])"

text \<open>
  \<^verbatim>\<open>v < m\<close> against the integer option \<open>m\<close>: numbers compare (a boolean is the number 0
  or 1), any other value raises \<^verbatim>\<open>TypeError\<close> (the ordering of Python 3).
\<close>

fun py_lt :: "json \<Rightarrow> int \<Rightarrow> error + bool" where
  "py_lt (JInt n) m = Inr (n < m)"
| "py_lt (JBool b) m = Inr ((if b then 1 else 0) < m)"
| "py_lt v m = Inl TypeError"

text \<open>\<^verbatim>\<open>str(n)\<close> of an integer: its decimal digits, with a minus sign when negative.\<close>

definition digit :: "nat \<Rightarrow> char" where
  "digit d = ''0123456789'' ! d"

fun str_nat :: "nat \<Rightarrow> string" where
  "str_nat n = (if n < 10 then [digit n] else str_nat (n div 10) @ [digit (n mod 10)])"

declare str_nat.simps [simp del]

definition str_int :: "int \<Rightarrow> string" where
  "str_int i = (if i < 0 then CHR ''-'' # str_nat (nat (- i)) else str_nat (nat i))"

text \<open>
  \<^verbatim>\<open>str(v)\<close> where the plugin uses it: on the threat score, after the comparison
  \<open>py_lt\<close> has returned, so on an integer or a boolean. The other constructors are never
  reached there (\<open>py_lt\<close> raises on them first) and are given the empty string.
\<close>

fun py_str :: "json \<Rightarrow> string" where
  "py_str (JInt n) = str_int n"
| "py_str (JBool b) = (if b then ''True'' else ''False'')"
| "py_str v = []"

section \<open>Events, options, the transport and the environment\<close>

text \<open>An incoming event: its type, the module it came from and the identifier it carries.\<close>

record event =
  eventType :: string
  module :: string
  data :: string

text \<open>
  An emitted \<^verbatim>\<open>SpiderFootEvent(evtType, data, self.__name__, event)\<close>. The data of a
  co-hosted-site finding is the \<^verbatim>\<open>hostname\<close> value of the entry as parsed, so any JSON
  value; the data of a reputation finding is the description string.
\<close>

record finding =
  evt_type :: string
  evt_data :: json
  evt_module :: string
  sourceEvent :: event

text \<open>
  The options the plugin reads. \<^verbatim>\<open>_fetchtimeout\<close> is not among the plugin's own
  defaults: the framework supplies it with the options of every scan, so it is a field
  here like the others.
\<close>

record opts =
  apikey :: string
  age_limit_days :: int
  threat_score_min :: int
  fetchtimeout :: int

text \<open>The options a user passes to \<^verbatim>\<open>setup\<close>: each key is present or not.\<close>

record userOpts =
  u_apikey :: "string option"
  u_age_limit_days :: "int option"
  u_threat_score_min :: "int option"
  u_fetchtimeout :: "int option"

record request =
  url :: string
  timeout :: int
  useragent :: string
  headers :: "(string \<times> string) list"

text \<open>
  The body of a response is represented by what \<^verbatim>\<open>json.loads\<close> does with it:
  \<open>Malformed\<close> when it raises, \<open>Json v\<close> when it returns \<open>v\<close>. A response without a
  body has \<open>content = None\<close>.
\<close>

datatype body = Malformed | Json json

record response =
  code :: "string option"
  content :: "body option"

text \<open>
  What the plugin does to the outside, in order: an identifier recorded in the dedup
  cache, a transport call with the response it got, a finding passed to
  \<^verbatim>\<open>notifyListeners\<close>. Log messages are not recorded.
\<close>

datatype effect =
    Record string
  | Fetch request response
  | Notify finding

text \<open>
  The collaborators the plugin calls: \<^verbatim>\<open>sf.validIP\<close>, \<^verbatim>\<open>sf.fetchUrl\<close>,
  \<^verbatim>\<open>netaddr.IPNetwork\<close> (the addresses of a block, \<open>None\<close> when it raises),
  \<^verbatim>\<open>int(time.mktime(datetime.strptime(s, fmt).timetuple()))\<close> as \<open>timestamp s fmt\<close>
  (\<open>None\<close> when that raises: the string does not match the format), \<^verbatim>\<open>int(time.time())\<close> and
  \<^verbatim>\<open>checkForStop\<close>. The transport, the clock and the stop signal may answer differently
  each time: they take the number of calls made to the environment so far.
\<close>

record env =
  validIP :: "string \<Rightarrow> bool"
  fetchUrl :: "nat \<Rightarrow> request \<Rightarrow> response"
  IPNetwork :: "string \<Rightarrow> string list option"
  timestamp :: "string \<Rightarrow> string \<Rightarrow> int option"
  now :: "nat \<Rightarrow> int"
  checkForStop :: "nat \<Rightarrow> bool"

text \<open>
  The plugin instance (\<open>opts\<close>, \<open>results\<close>, \<open>errorState\<close>) together with the number
  of environment calls made and the effects so far.
\<close>

record state =
  opts :: opts
  results :: "string set"
  errorState :: bool
  tick :: nat
  trace :: "effect list"

definition default_opts :: opts where
  "default_opts = \<lparr>apikey = '''', age_limit_days = 30, threat_score_min = 2, fetchtimeout = 5\<rparr>"

definition init :: state where
  "init = \<lparr>opts = default_opts, results = {}, errorState = False, tick = 0, trace = []\<rparr>"

definition watchedEvents :: "string list" where
  "watchedEvents = [''IP_ADDRESS'', ''AFFILIATE_IPADDR'', ''INTERNET_NAME'',
     ''CO_HOSTED_SITE'', ''NETBLOCK_OWNER'', ''NETBLOCK_MEMBER'',
     ''AFFILIATE_INTERNET_NAME'', ''IPV6_ADDRESS'']"

definition producedEvents :: "string list" where
  "producedEvents = [''MALICIOUS_IPADDR'', ''MALICIOUS_INTERNET_NAME'',
     ''MALICIOUS_COHOST'', ''MALICIOUS_AFFILIATE_INTERNET_NAME'',
     ''MALICIOUS_AFFILIATE_IPADDR'', ''MALICIOUS_NETBLOCK'',
     ''CO_HOSTED_SITE'']"

section \<open>setup\<close>

text \<open>
  \<^verbatim>\<open>setup\<close> replaces the dedup cache by an empty one and copies each user option over
  the stored one. It assigns nothing else; the \<^verbatim>\<open>sf\<close> handle it stores is the
  environment passed to each call below.
\<close>

definition merge_opts :: "opts \<Rightarrow> userOpts \<Rightarrow> opts" where
  "merge_opts old u =
     \<lparr>apikey = (case u_apikey u of None \<Rightarrow> apikey old | Some v \<Rightarrow> v),
      age_limit_days = (case u_age_limit_days u of None \<Rightarrow> age_limit_days old | Some v \<Rightarrow> v),
      threat_score_min = (case u_threat_score_min u of None \<Rightarrow> threat_score_min old | Some v \<Rightarrow> v),
      fetchtimeout = (case u_fetchtimeout u of None \<Rightarrow> fetchtimeout old | Some v \<Rightarrow> v)\<rparr>"

definition setup_plugin :: "state \<Rightarrow> userOpts \<Rightarrow> state" where
  "setup_plugin s u = s\<lparr>results := {}, opts := merge_opts (opts s) u\<rparr>"

section \<open>query\<close>

definition record_id :: "state \<Rightarrow> string \<Rightarrow> state" where
  "record_id s x = s\<lparr>results := insert x (results s), trace := trace s @ [Record x]\<rparr>"

definition notifyListeners :: "state \<Rightarrow> finding \<Rightarrow> state" where
  "notifyListeners s e = s\<lparr>trace := trace s @ [Notify e]\<rparr>"

definition build_request :: "env \<Rightarrow> opts \<Rightarrow> string \<Rightarrow> string \<Rightarrow> request" where
  "build_request env os qry querytype =
     (let targettype = (if validIP env qry then ''IPv4''
                        else if CHR '':'' \<in> set qry then ''IPv6'' else ''hostname'');
          querytype' = (if querytype \<notin> {''passive_dns'', ''reputation''} then ''reputation''
                        else querytype)
      in \<lparr>url = ''https://otx.alienvault.com:443/api/v1/indicators/'' @ targettype @
                 ''/'' @ qry @ ''/'' @ querytype',
          timeout = fetchtimeout os,
          useragent = ''SpiderFoot'',
          headers = [(''Accept'', ''application/json''), (''X-OTX-API-KEY'', apikey os)]\<rparr>)"

text \<open>
  \<^verbatim>\<open>query\<close> returns \<^verbatim>\<open>None\<close> on status 403 (setting the error flag), on a missing body
  or status 404, and when the body does not parse; otherwise the parsed body. A body
  that parses to \<^verbatim>\<open>null\<close> is the value \<^verbatim>\<open>None\<close> too.
\<close>

definition query :: "env \<Rightarrow> state \<Rightarrow> string \<Rightarrow> string \<Rightarrow> state \<times> json option" where
  "query env s qry querytype =
     (let req = build_request env (opts s) qry querytype;
          res = fetchUrl env (tick s) req;
          s1 = s\<lparr>tick := tick s + 1, trace := trace s @ [Fetch req res]\<rparr>
      in if code res = Some ''403'' then (s1\<lparr>errorState := True\<rparr>, None)
         else if content res = None \<or> code res = Some ''404'' then (s1, None)
         else (case content res of
                 None \<Rightarrow> (s1, None)
               | Some Malformed \<Rightarrow> (s1, None)
               | Some (Json info) \<Rightarrow> (s1, if info = JNull then None else Some info)))"

section \<open>handleEvent\<close>

text \<open>
  The timestamp of an entry: \<^verbatim>\<open>strptime\<close> raises \<^verbatim>\<open>TypeError\<close> when its argument is
  not a string and \<^verbatim>\<open>ValueError\<close> when the string does not match the format.
\<close>

definition strptime_ts :: "env \<Rightarrow> json \<Rightarrow> string \<Rightarrow> error + int" where
  "strptime_ts env v fmt =
     (case v of
        JStr t \<Rightarrow> (case timestamp env t fmt of None \<Rightarrow> Inl ValueError | Some n \<Rightarrow> Inr n)
      | _ \<Rightarrow> Inl TypeError)"

text \<open>The age test of both loops: \<^verbatim>\<open>age_limit_days > 0 and ts < age_limit_ts\<close>.\<close>

definition too_old :: "opts \<Rightarrow> int \<Rightarrow> int \<Rightarrow> bool" where
  "too_old os time_now ts =
     (let age_limit_ts = time_now - 86400 * age_limit_days os
      in age_limit_days os > 0 \<and> ts < age_limit_ts)"

text \<open>The loop over the entries of \<^verbatim>\<open>ret["passive_dns"]\<close>.\<close>

fun pdns_loop :: "env \<Rightarrow> event \<Rightarrow> state \<Rightarrow> json list \<Rightarrow> state \<times> outcome" where
  "pdns_loop env ev s [] = (s, Returned)"
| "pdns_loop env ev s (rec # recs) =
     (case py_in ''hostname'' rec of
        Inl e \<Rightarrow> (s, Raised e)
      | Inr False \<Rightarrow> pdns_loop env ev s recs
      | Inr True \<Rightarrow>
          (case py_get rec ''last'' (JStr []) of
             Inl e \<Rightarrow> (s, Raised e)
           | Inr lastv \<Rightarrow>
               (case strptime_ts env lastv ''%Y-%m-%d %H:%M:%S'' of
                  Inl e \<Rightarrow> (s, Raised e)
                | Inr last_ts \<Rightarrow>
                    (let time_now = now env (tick s);
                         s1 = s\<lparr>tick := tick s + 1\<rparr>
                     in case py_getitem rec ''hostname'' of
                          Inl e \<Rightarrow> (s1, Raised e)
                        | Inr host \<Rightarrow>
                            if too_old (opts s) time_now last_ts
                            then pdns_loop env ev s1 recs
                            else pdns_loop env ev
                                   (notifyListeners s1
                                      \<lparr>evt_type = ''CO_HOSTED_SITE'', evt_data = host,
                                       evt_module = ''sfp_alienvault'', sourceEvent = ev\<rparr>)
                                   recs))))"

text \<open>
  The passive-DNS block, run for \<^verbatim>\<open>IP_ADDRESS\<close> events. The lookup kind passed to
  \<open>query\<close> and the key tested on the answer are spelled \<^verbatim>\<open>passve_dns\<close> in the source;
  the key read is \<^verbatim>\<open>passive_dns\<close>.
\<close>

definition passive_dns :: "env \<Rightarrow> event \<Rightarrow> state \<Rightarrow> state \<times> outcome" where
  "passive_dns env ev s =
     (case query env s (data ev) ''passve_dns'' of
        (s1, None) \<Rightarrow> (s1, Returned)
      | (s1, Some ret) \<Rightarrow>
          (case py_in ''passve_dns'' ret of
             Inl e \<Rightarrow> (s1, Raised e)
           | Inr False \<Rightarrow> (s1, Returned)
           | Inr True \<Rightarrow>
               (case py_getitem ret ''passive_dns'' of
                  Inl e \<Rightarrow> (s1, Raised e)
                | Inr res \<Rightarrow>
                    (case py_iter res of
                       Inl e \<Rightarrow> (s1, Raised e)
                     | Inr recs \<Rightarrow> pdns_loop env ev s1 recs))))"

text \<open>
  The loop over \<^verbatim>\<open>rec_history\<close>, building the description. The name is appended
  before the age of the entry is looked at; the \<^verbatim>\<open>continue\<close> of the age test and the
  assignment after it leave the description as it is.
\<close>

fun activities_loop :: "env \<Rightarrow> state \<Rightarrow> string \<Rightarrow> json list \<Rightarrow> state \<times> (error + string)" where
  "activities_loop env s descr [] = (s, Inr descr)"
| "activities_loop env s descr (result # rest) =
     (case py_get result ''name'' (JStr []) of
        Inl e \<Rightarrow> (s, Inl e)
      | Inr (JStr nm) \<Rightarrow>
          (let descr1 = descr @ [CHR 0x0A] @ '' - '' @ nm
           in case py_get result ''last_date'' (JStr []) of
                Inl e \<Rightarrow> (s, Inl e)
              | Inr created \<Rightarrow>
                  (case strptime_ts env created ''%Y-%m-%dT%H:%M:%S'' of
                     Inl e \<Rightarrow> (s, Inl e)
                   | Inr created_ts \<Rightarrow>
                       (let time_now = now env (tick s);
                            s1 = s\<lparr>tick := tick s + 1\<rparr>
                        in if too_old (opts s) time_now created_ts
                           then activities_loop env s1 descr1 rest
                           else activities_loop env s1 descr1 rest)))
      | Inr v \<Rightarrow> (s, Inl TypeError))"

text \<open>
  The chain of independent conditionals that assigns \<^verbatim>\<open>evtType\<close>; \<open>None\<close> is the
  variable not assigned yet.
\<close>

definition assign_evtType :: "string \<Rightarrow> string option \<Rightarrow> string option" where
  "assign_evtType eventName evtType =
     (let t1 = (if eventName = ''IP_ADDRESS'' \<or> startswith eventName ''NETBLOCK_''
                then Some ''MALICIOUS_IPADDR'' else evtType);
          t2 = (if eventName = ''AFFILIATE_IPADDR'' then Some ''MALICIOUS_AFFILIATE_IPADDR'' else t1);
          t3 = (if eventName = ''INTERNET_NAME'' then Some ''MALICIOUS_INTERNET_NAME'' else t2);
          t4 = (if eventName = ''AFFILIATE_INTERNET_NAME''
                then Some ''MALICIOUS_AFFILIATE_INTERNET_NAME'' else t3)
      in if eventName = ''CO_HOSTED_SITE'' then Some ''MALICIOUS_COHOST'' else t4)"

text \<open>
  What the body of the loop over \<^verbatim>\<open>qrylist\<close> does with the answer to a reputation
  query: \<open>Inr None\<close> when no finding is emitted and the loop goes on, \<open>Inr (Some e)\<close>
  with the finding to emit, \<open>Inl\<close> when it raises.
\<close>

definition classify ::
  "env \<Rightarrow> event \<Rightarrow> string option \<Rightarrow> state \<Rightarrow> json option \<Rightarrow> state \<times> (error + finding option)" where
  "classify env ev evtType s rec =
     (case rec of
        None \<Rightarrow> (s, Inr None)
      | Some r \<Rightarrow>
          (case py_get r ''reputation'' JNull of
             Inl e \<Rightarrow> (s, Inl e)
           | Inr rep \<Rightarrow>
               if \<not> truthy rep then (s, Inr None)
               else
                 (case py_get rep ''activities'' (JList []) of
                    Inl e \<Rightarrow> (s, Inl e)
                  | Inr rec_history \<Rightarrow>
                      (case py_getitem rep ''threat_score'' of
                         Inl e \<Rightarrow> (s, Inl e)
                       | Inr score \<Rightarrow>
                           (case py_lt score (threat_score_min (opts s)) of
                              Inl e \<Rightarrow> (s, Inl e)
                            | Inr True \<Rightarrow> (s, Inr None)
                            | Inr False \<Rightarrow>
                                (let descr = ''Threat Score: '' @ py_str score @ '':''
                                 in case py_iter rec_history of
                                      Inl e \<Rightarrow> (s, Inl e)
                                    | Inr items \<Rightarrow>
                                        (case activities_loop env s descr items of
                                           (s1, Inl e) \<Rightarrow> (s1, Inl e)
                                         | (s1, Inr descr1) \<Rightarrow>
                                             (case evtType of
                                                None \<Rightarrow> (s1, Inl UnboundLocalError)
                                              | Some t \<Rightarrow>
                                                  (s1, Inr (Some
                                                     \<lparr>evt_type = t, evt_data = JStr descr1,
                                                      evt_module = ''sfp_alienvault'',
                                                      sourceEvent = ev\<rparr>))))))))))"

text \<open>The loop over \<^verbatim>\<open>qrylist\<close>; the stop signal is polled before each target.\<close>

fun targets_loop :: "env \<Rightarrow> event \<Rightarrow> string option \<Rightarrow> state \<Rightarrow> string list \<Rightarrow> state \<times> outcome" where
  "targets_loop env ev evtType s [] = (s, Returned)"
| "targets_loop env ev evtType s (addr # qrylist) =
     (let stop = checkForStop env (tick s);
          s0 = s\<lparr>tick := tick s + 1\<rparr>
      in if stop then (s0, Returned)
         else
           (let evtType1 = assign_evtType (eventType ev) evtType
            in case query env s0 addr ''reputation'' of
                 (s1, rec) \<Rightarrow>
                   (case classify env ev evtType1 s1 rec of
                      (s2, Inl e) \<Rightarrow> (s2, Raised e)
                    | (s2, Inr None) \<Rightarrow> targets_loop env ev evtType1 s2 qrylist
                    | (s2, Inr (Some e)) \<Rightarrow>
                        targets_loop env ev evtType1 (notifyListeners s2 e) qrylist)))"

text \<open>
  The expansion of the event into query targets: every address of a netblock, recorded
  in the cache as it is appended, or the identifier itself.
\<close>

definition expand :: "env \<Rightarrow> event \<Rightarrow> state \<Rightarrow> error + state \<times> string list" where
  "expand env ev s =
     (if startswith (eventType ev) ''NETBLOCK_''
      then (case IPNetwork env (data ev) of
              None \<Rightarrow> Inl AddrFormatError
            | Some addrs \<Rightarrow> Inr (foldl record_id s addrs, addrs))
      else Inr (s, [data ev]))"

definition handleEvent :: "env \<Rightarrow> state \<Rightarrow> event \<Rightarrow> state \<times> outcome" where
  "handleEvent env s ev =
     (if errorState s then (s, Returned)
      else if apikey (opts s) = [] then (s\<lparr>errorState := True\<rparr>, Returned)
      else if data ev \<in> results s then (s, Returned)
      else
        (let s1 = record_id s (data ev)
         in case expand env ev s1 of
              Inl e \<Rightarrow> (s1, Raised e)
            | Inr (s2, qrylist) \<Rightarrow>
                if eventType ev = ''IP_ADDRESS''
                then (case passive_dns env ev s2 of
                        (s3, Raised e) \<Rightarrow> (s3, Raised e)
                      | (s3, Returned) \<Rightarrow> targets_loop env ev (Some ''CO_HOSTED_SITE'') s3 qrylist)
                else targets_loop env ev None s2 qrylist))"

text \<open>
  A run: the events handled one after the other by the same instance. An exception
  leaves the instance as the failed call left it.
\<close>

fun handleEvents :: "env \<Rightarrow> state \<Rightarrow> event list \<Rightarrow> state" where
  "handleEvents env s [] = s"
| "handleEvents env s (ev # evs) = handleEvents env (fst (handleEvent env s ev)) evs"

text \<open>
  Successive scan runs of one instance: each run calls \<^verbatim>\<open>setup\<close> with its options and
  then handles its events.
\<close>

fun cycles :: "env \<Rightarrow> state \<Rightarrow> (userOpts \<times> event list) list \<Rightarrow> state" where
  "cycles env s [] = s"
| "cycles env s ((u, evs) # cs) = cycles env (handleEvents env (setup_plugin s u) evs) cs"

section \<open>Reading the effects of a call\<close>

text \<open>The effects a call added: what the trace of \<open>s'\<close> holds beyond the trace of \<open>s\<close>.\<close>

definition effects_since :: "state \<Rightarrow> state \<Rightarrow> effect list" where
  "effects_since s s' = drop (length (trace s)) (trace s')"

fun is_403 :: "effect \<Rightarrow> bool" where
  "is_403 (Fetch req res) = (code res = Some ''403'')"
| "is_403 x = False"

fun is_cohost :: "event \<Rightarrow> effect \<Rightarrow> bool" where
  "is_cohost ev (Notify e) =
     (evt_type e = ''CO_HOSTED_SITE'' \<and> evt_module e = ''sfp_alienvault'' \<and> sourceEvent e = ev)"
| "is_cohost ev x = False"

text \<open>\<open>s'\<close> differs from \<open>s\<close> in the call counter only.\<close>

definition only_ticked :: "state \<Rightarrow> state \<Rightarrow> bool" where
  "only_ticked s s' \<longleftrightarrow> (\<exists>n. s' = s\<lparr>tick := n\<rparr>)"

text \<open>
  \<open>s'\<close> comes from \<open>s\<close> by the effects \<open>new\<close>, with the options and the cache as
  they were, and with the error flag set exactly when it was set before or one of the
  new transport calls was answered with status 403.
\<close>

definition advances :: "state \<Rightarrow> state \<Rightarrow> effect list \<Rightarrow> bool" where
  "advances s s' new \<longleftrightarrow>
     trace s' = trace s @ new \<and> opts s' = opts s \<and> results s' = results s \<and>
     (errorState s' \<longleftrightarrow> errorState s \<or> list_ex is_403 new)"

text \<open>
  A parsed body holds a reputation whose threat score is not below the minimum: the
  comparison \<^verbatim>\<open>threat_score < threat_score_min\<close> is made and is false.
\<close>

definition score_at_least_min :: "opts \<Rightarrow> json \<Rightarrow> bool" where
  "score_at_least_min os r =
     (case py_get r ''reputation'' JNull of
        Inl e \<Rightarrow> False
      | Inr rep \<Rightarrow>
          (case py_getitem rep ''threat_score'' of
             Inl e \<Rightarrow> False
           | Inr score \<Rightarrow> py_lt score (threat_score_min os) = Inr False))"

definition at_least_min :: "opts \<Rightarrow> response \<Rightarrow> bool" where
  "at_least_min os res =
     (case content res of
        Some (Json r) \<Rightarrow> score_at_least_min os r
      | _ \<Rightarrow> False)"

text \<open>A finding made by this module for the event \<open>ev\<close>, whose data is a description
  that begins with the threat score.\<close>

definition reputation_finding :: "event \<Rightarrow> finding \<Rightarrow> bool" where
  "reputation_finding ev e =
     (evt_module e = ''sfp_alienvault'' \<and> sourceEvent e = ev \<and>
      (case evt_data e of JStr d \<Rightarrow> startswith d ''Threat Score: '' | _ \<Rightarrow> False))"

text \<open>
  A check of the findings in a list of effects, read in order with the response of the
  latest transport call (\<open>None\<close> before the first call and after a reputation finding):
  the category of every finding is one of \<open>producedEvents\<close>, and a finding other than a
  co-hosted site is a reputation finding that answers a response whose threat score is
  not below the minimum, at most one finding for each response.
\<close>

fun findings_ok :: "opts \<Rightarrow> event \<Rightarrow> response option \<Rightarrow> effect list \<Rightarrow> bool" where
  "findings_ok os ev latest [] = True"
| "findings_ok os ev latest (Record x # t) = findings_ok os ev latest t"
| "findings_ok os ev latest (Fetch req res # t) = findings_ok os ev (Some res) t"
| "findings_ok os ev latest (Notify e # t) =
     (if is_cohost ev (Notify e) then findings_ok os ev latest t
      else evt_type e \<in> set producedEvents \<and> reputation_finding ev e \<and>
           (case latest of None \<Rightarrow> False | Some res \<Rightarrow> at_least_min os res) \<and>
           findings_ok os ev None t)"

text \<open>The variable \<^verbatim>\<open>evtType\<close> is unassigned or holds one of the produced categories.\<close>

definition assignable :: "string option \<Rightarrow> bool" where
  "assignable t = (case t of None \<Rightarrow> True | Some x \<Rightarrow> x \<in> set producedEvents)"

section \<open>Concrete environments and inputs\<close>

text \<open>
  An environment for the examples: three address literals are valid IPv4, one netblock
  has two addresses, three timestamps parse (to their UTC epoch seconds), the clock
  stands at 2026-11-04 00:00:00 and no stop is requested. The transport is a parameter.
\<close>

definition ex_timestamp :: "string \<Rightarrow> string \<Rightarrow> int option" where
  "ex_timestamp t fmt =
     (if fmt = ''%Y-%m-%d %H:%M:%S'' \<and> t = ''2026-11-01 00:00:00'' then Some 1793491200
      else if fmt = ''%Y-%m-%dT%H:%M:%S'' \<and> t = ''2026-11-01T00:00:00'' then Some 1793491200
      else if fmt = ''%Y-%m-%dT%H:%M:%S'' \<and> t = ''2000-01-01T00:00:00'' then Some 946684800
      else None)"

definition ex_env :: "(nat \<Rightarrow> request \<Rightarrow> response) \<Rightarrow> env" where
  "ex_env fetch =
     \<lparr>validIP = (\<lambda>q. q = ''203.0.113.5'' \<or> q = ''10.0.0.0'' \<or> q = ''10.0.0.1''),
      fetchUrl = fetch,
      IPNetwork = (\<lambda>d. if d = ''10.0.0.0/31'' then Some [''10.0.0.0'', ''10.0.0.1''] else None),
      timestamp = ex_timestamp,
      now = (\<lambda>n. 1793750400),
      checkForStop = (\<lambda>n. False)\<rparr>"

definition reply :: "json \<Rightarrow> response" where
  "reply j = \<lparr>code = Some ''200'', content = Some (Json j)\<rparr>"

definition forbidden :: response where
  "forbidden = \<lparr>code = Some ''403'', content = None\<rparr>"

text \<open>A plugin instance with a credential and the default limits (30 days, score 2).\<close>

definition ready :: state where
  "ready = init\<lparr>opts := default_opts\<lparr>apikey := ''key''\<rparr>\<rparr>"

definition ex_request :: "string \<Rightarrow> request" where
  "ex_request u =
     \<lparr>url = u, timeout = 5, useragent = ''SpiderFoot'',
      headers = [(''Accept'', ''application/json''), (''X-OTX-API-KEY'', ''key'')]\<rparr>"

definition ev_ip :: event where
  "ev_ip = \<lparr>eventType = ''IP_ADDRESS'', module = ''sfp_dnsresolve'', data = ''203.0.113.5''\<rparr>"

definition ev_name :: event where
  "ev_name = \<lparr>eventType = ''INTERNET_NAME'', module = ''sfp_dnsresolve'', data = ''example.org''\<rparr>"

definition ev_ipv6 :: event where
  "ev_ipv6 = \<lparr>eventType = ''IPV6_ADDRESS'', module = ''sfp_dnsresolve'', data = ''2001:db8::1''\<rparr>"

definition ev_affiliate :: event where
  "ev_affiliate = \<lparr>eventType = ''AFFILIATE_IPADDR'', module = ''sfp_dnsresolve'', data = ''10.0.0.1''\<rparr>"

definition ev_netblock :: event where
  "ev_netblock = \<lparr>eventType = ''NETBLOCK_OWNER'', module = ''sfp_ripe'', data = ''10.0.0.0/31''\<rparr>"

text \<open>Response bodies: a passive-DNS record with one recent entry, and reputation records.\<close>

definition pdns_body :: json where
  "pdns_body = JDict [(''passive_dns'',
     JList [JDict [(''hostname'', JStr ''cohost.example''), (''last'', JStr ''2026-11-01 00:00:00'')]])]"


definition reputation_body :: "int \<Rightarrow> json list \<Rightarrow> json" where
  "reputation_body score acts =
     JDict [(''reputation'', JDict [(''threat_score'', JInt score), (''activities'', JList acts)])]"

definition activity :: "string \<Rightarrow> string \<Rightarrow> json" where
  "activity nm d = JDict [(''name'', JStr nm), (''last_date'', JStr d)]"

definition ex_userOpts :: userOpts where
  "ex_userOpts = \<lparr>u_apikey = Some ''key'', u_age_limit_days = None,
     u_threat_score_min = None, u_fetchtimeout = None\<rparr>"

text \<open>The instance after a rejected credential: one event handled against a transport answering 403.\<close>

definition after_403 :: state where
  "after_403 = fst (handleEvent (ex_env (\<lambda>n r. forbidden)) ready ev_name)"

text \<open>
  A transport that answers as the service does for the address 203.0.113.5: the
  passive-DNS path gives the passive-DNS record, the reputation path a reputation record
  with score 5 and one recent activity, any other path status 404.
\<close>

definition otx_service :: "nat \<Rightarrow> request \<Rightarrow> response" where
  "otx_service n r =
     (if url r = ''https://otx.alienvault.com:443/api/v1/indicators/IPv4/203.0.113.5/passive_dns''
      then reply pdns_body
      else if url r = ''https://otx.alienvault.com:443/api/v1/indicators/IPv4/203.0.113.5/reputation''
      then reply (reputation_body 5 [activity ''Scanning Host'' ''2026-11-01T00:00:00''])
      else \<lparr>code = Some ''404'', content = None\<rparr>)"

section \<open>Evaluation on concrete inputs\<close>

text \<open>All the definitions an evaluation on a concrete input unfolds.\<close>

lemmas eval_defs =
  handleEvent_def expand_def passive_dns_def classify_def query_def build_request_def
  assign_evtType_def strptime_ts_def too_old_def record_id_def notifyListeners_def
  ex_env_def ex_timestamp_def ex_request_def reply_def forbidden_def ready_def init_def
  default_opts_def ev_ip_def ev_name_def ev_ipv6_def ev_affiliate_def ev_netblock_def
  pdns_body_def reputation_body_def activity_def otx_service_def str_int_def digit_def
  str_nat.simps Let_def

section \<open>How each part of event handling changes the state\<close>

lemma only_ticked_refl: "only_ticked s s"
  unfolding only_ticked_def by (rule exI [of _ "tick s"]) simp

lemma only_ticked_tick: "only_ticked s (s\<lparr>tick := n\<rparr>)"
  unfolding only_ticked_def by blast

lemma only_ticked_trans: "only_ticked s s1 \<Longrightarrow> only_ticked s1 s2 \<Longrightarrow> only_ticked s s2"
  unfolding only_ticked_def by auto

lemma only_ticked_advances: "only_ticked s s' \<Longrightarrow> advances s s' []"
  unfolding only_ticked_def advances_def by auto

lemma advances_trans:
  "advances s s1 a \<Longrightarrow> advances s1 s2 b \<Longrightarrow> advances s s2 (a @ b)"
  unfolding advances_def by auto

lemma advances_notify: "advances s (notifyListeners s e) [Notify e]"
  by (simp add: advances_def notifyListeners_def)

lemma activities_loop_only_ticked:
  "only_ticked s (fst (activities_loop env s descr items))"
proof (induction items arbitrary: s descr)
  case Nil
  show ?case by (simp add: only_ticked_refl)
next
  case (Cons result rest)
  have step: "\<And>d. only_ticked s (fst (activities_loop env (s\<lparr>tick := Suc (tick s)\<rparr>) d rest))"
    by (rule only_ticked_trans [OF only_ticked_tick Cons.IH])
  show ?case
    by (simp add: Let_def only_ticked_refl step split: sum.split json.split)
qed

lemma activities_loop_prefix:
  "snd (activities_loop env s descr items) = Inr d \<Longrightarrow> \<exists>x. d = descr @ x"
proof (induction items arbitrary: s descr)
  case Nil
  then show ?case by simp
next
  case (Cons result rest)
  then show ?case
    by (fastforce simp: Let_def split: sum.splits json.splits)
qed

lemma query_effect:
  "fst (query env s qry k) =
     s\<lparr>tick := tick s + 1,
       trace := trace s @ [Fetch (build_request env (opts s) qry k)
                             (fetchUrl env (tick s) (build_request env (opts s) qry k))],
       errorState := errorState s \<or>
         code (fetchUrl env (tick s) (build_request env (opts s) qry k)) = Some ''403''\<rparr>"
  by (simp add: query_def Let_def split: option.split body.split)

lemma query_advances:
  "advances s (fst (query env s qry k))
     [Fetch (build_request env (opts s) qry k)
        (fetchUrl env (tick s) (build_request env (opts s) qry k))]"
  by (simp add: query_effect advances_def)

lemma query_Some:
  "snd (query env s qry k) = Some r \<Longrightarrow>
     content (fetchUrl env (tick s) (build_request env (opts s) qry k)) = Some (Json r)"
  by (simp add: query_def Let_def split: option.splits body.splits if_splits)

lemma startswith_append [simp]: "startswith (p @ x) p"
  by (induction p) simp_all

lemma classify_only_ticked: "only_ticked s (fst (classify env ev t s rec))"
proof -
  have a: "\<And>d items. only_ticked s (fst (activities_loop env s d items))"
    by (rule activities_loop_only_ticked)
  show ?thesis
    using a
    by (simp add: classify_def Let_def only_ticked_refl split_beta
        split: option.split sum.split bool.split prod.split)
qed

lemma classify_None: "snd (classify env ev t s None) = Inr None"
  by (simp add: classify_def)

lemma classify_Some:
  assumes "snd (classify env ev t s (Some r)) = Inr (Some e)"
  shows "t = Some (evt_type e) \<and> reputation_finding ev e \<and> score_at_least_min (opts s) r"
  using assms
  by (auto simp: classify_def Let_def split_beta score_at_least_min_def reputation_finding_def
      dest!: activities_loop_prefix split: option.splits sum.splits bool.splits if_splits)

lemma pdns_loop_effect:
  "\<exists>new. advances s (fst (pdns_loop env ev s recs)) new \<and> list_all (is_cohost ev) new"
proof (induction recs arbitrary: s)
  case Nil
  show ?case by (simp add: advances_def)
next
  case (Cons r recs)
  have stay: "\<exists>new. advances s s new \<and> list_all (is_cohost ev) new"
    by (rule exI [of _ "[]"]) (simp add: advances_def)
  have tick: "\<exists>new. advances s (s\<lparr>tick := Suc (tick s)\<rparr>) new \<and> list_all (is_cohost ev) new"
    by (rule exI [of _ "[]"]) (simp add: advances_def)
  have skip: "\<exists>new. advances s (fst (pdns_loop env ev (s\<lparr>tick := Suc (tick s)\<rparr>) recs)) new \<and>
                 list_all (is_cohost ev) new"
  proof -
    obtain new where n: "advances (s\<lparr>tick := Suc (tick s)\<rparr>)
        (fst (pdns_loop env ev (s\<lparr>tick := Suc (tick s)\<rparr>) recs)) new" "list_all (is_cohost ev) new"
      using Cons.IH by blast
    have "advances s (s\<lparr>tick := Suc (tick s)\<rparr>) []" by (simp add: advances_def)
    from advances_trans [OF this n(1)] n(2) show ?thesis by auto
  qed
  have emit: "\<exists>new. advances s
        (fst (pdns_loop env ev
           (notifyListeners (s\<lparr>tick := Suc (tick s)\<rparr>)
              \<lparr>evt_type = ''CO_HOSTED_SITE'', evt_data = host,
                 evt_module = ''sfp_alienvault'', sourceEvent = ev\<rparr>) recs)) new \<and>
        list_all (is_cohost ev) new" for host
  proof -
    let ?e = "\<lparr>evt_type = ''CO_HOSTED_SITE'', evt_data = host,
                 evt_module = ''sfp_alienvault'', sourceEvent = ev\<rparr>"
    let ?s1 = "notifyListeners (s\<lparr>tick := Suc (tick s)\<rparr>) ?e"
    obtain new where n: "advances ?s1 (fst (pdns_loop env ev ?s1 recs)) new"
        "list_all (is_cohost ev) new"
      using Cons.IH by blast
    have "advances s ?s1 [Notify ?e]" by (simp add: advances_def notifyListeners_def)
    from advances_trans [OF this n(1)] n(2) show ?thesis
      by (intro exI [of _ "[Notify ?e] @ new"]) simp
  qed
  show ?case
    using Cons.IH [of s] stay tick skip emit
    by (simp add: Let_def split: sum.split bool.split)
qed

lemma passive_dns_effect:
  "\<exists>res new. advances s (fst (passive_dns env ev s))
       (Fetch (build_request env (opts s) (data ev) ''passve_dns'') res # new) \<and>
     list_all (is_cohost ev) new"
proof -
  let ?req = "build_request env (opts s) (data ev) ''passve_dns''"
  let ?res = "fetchUrl env (tick s) ?req"
  let ?s1 = "fst (query env s (data ev) ''passve_dns'')"
  have q: "advances s ?s1 [Fetch ?req ?res]"
    by (rule query_advances)
  have stay: "\<exists>new. advances s ?s1 (Fetch ?req ?res # new) \<and> list_all (is_cohost ev) new"
    using q by (intro exI [of _ "[]"]) simp
  have loop: "\<exists>new. advances s (fst (pdns_loop env ev ?s1 recs)) (Fetch ?req ?res # new) \<and>
                list_all (is_cohost ev) new" for recs
  proof -
    obtain new where n: "advances ?s1 (fst (pdns_loop env ev ?s1 recs)) new"
        "list_all (is_cohost ev) new"
      using pdns_loop_effect by blast
    from advances_trans [OF q n(1)] n(2) show ?thesis by auto
  qed
  have "\<exists>new. advances s (fst (passive_dns env ev s)) (Fetch ?req ?res # new) \<and>
          list_all (is_cohost ev) new"
    using stay loop
    by (simp add: passive_dns_def split_beta split: option.split sum.split bool.split)
  then show ?thesis by blast
qed

lemma findings_ok_cohosts:
  "list_all (is_cohost ev) a \<Longrightarrow> findings_ok os ev l (a @ b) = findings_ok os ev l b"
proof (induction a)
  case Nil
  show ?case by simp
next
  case (Cons x a)
  then show ?case by (cases x) simp_all
qed

lemma findings_ok_records:
  "findings_ok os ev l (map Record xs @ b) = findings_ok os ev l b"
  by (induction xs) simp_all

lemma assignable_assign: "assignable t \<Longrightarrow> assignable (assign_evtType n t)"
  by (simp add: assignable_def assign_evtType_def producedEvents_def Let_def)

lemma targets_loop_effect:
  "assignable t \<Longrightarrow>
   \<exists>new. advances s (fst (targets_loop env ev t s qrylist)) new \<and>
         (\<forall>l. findings_ok (opts s) ev l new)"
proof (induction qrylist arbitrary: s t)
  case Nil
  show ?case by (simp add: advances_def)
next
  case (Cons addr qrylist)
  let ?s0 = "s\<lparr>tick := Suc (tick s)\<rparr>"
  let ?t1 = "assign_evtType (eventType ev) t"
  let ?req = "build_request env (opts s) addr ''reputation''"
  let ?res = "fetchUrl env (Suc (tick s)) ?req"
  let ?q = "query env ?s0 addr ''reputation''"
  let ?c = "classify env ev ?t1 (fst ?q) (snd ?q)"
  have t1: "assignable ?t1"
    using Cons.prems by (rule assignable_assign)
  have s0: "advances s ?s0 []"
    by (simp add: advances_def)
  have "advances ?s0 (fst ?q) [Fetch ?req ?res]"
    using query_advances [of ?s0 env addr "''reputation''"] by simp
  from advances_trans [OF s0 this] have s1: "advances s (fst ?q) [Fetch ?req ?res]"
    by simp
  have "advances (fst ?q) (fst ?c) []"
    by (rule only_ticked_advances [OF classify_only_ticked])
  from advances_trans [OF s1 this] have s2: "advances s (fst ?c) [Fetch ?req ?res]"
    by simp
  have o2: "opts (fst ?c) = opts s"
    using s2 by (simp add: advances_def)
  show ?case
  proof (cases "checkForStop env (tick s)")
    case True
    then show ?thesis
      using s0 by (intro exI [of _ "[]"]) simp
  next
    case False
    show ?thesis
    proof (cases "snd ?c")
      case (Inl e)
      then have "fst (targets_loop env ev t s (addr # qrylist)) = fst ?c"
        using False by (simp add: Let_def split_beta)
      then show ?thesis
        using s2 by (intro exI [of _ "[Fetch ?req ?res]"]) simp
    next
      case (Inr fo)
      show ?thesis
      proof (cases fo)
        case None
        then have eq: "fst (targets_loop env ev t s (addr # qrylist)) =
            fst (targets_loop env ev ?t1 (fst ?c) qrylist)"
          using False Inr by (simp add: Let_def split_beta)
        obtain new where n: "advances (fst ?c) (fst (targets_loop env ev ?t1 (fst ?c) qrylist)) new"
            "\<forall>l. findings_ok (opts s) ev l new"
          using Cons.IH [OF t1, of "fst ?c"] o2 by auto
        from advances_trans [OF s2 n(1)] n(2) eq show ?thesis
          by (intro exI [of _ "[Fetch ?req ?res] @ new"]) simp
      next
        case (Some e)
        let ?s3 = "notifyListeners (fst ?c) e"
        have eq: "fst (targets_loop env ev t s (addr # qrylist)) =
            fst (targets_loop env ev ?t1 ?s3 qrylist)"
          using False Inr Some by (simp add: Let_def split_beta)
        have o3: "opts ?s3 = opts s"
          using o2 by (simp add: notifyListeners_def)
        obtain new where n: "advances ?s3 (fst (targets_loop env ev ?t1 ?s3 qrylist)) new"
            "\<forall>l. findings_ok (opts s) ev l new"
          using Cons.IH [OF t1, of ?s3] o3 by auto
        from advances_trans [OF advances_trans [OF s2 advances_notify] n(1)]
        have adv: "advances s (fst (targets_loop env ev ?t1 ?s3 qrylist))
            (Fetch ?req ?res # Notify e # new)"
          by simp
        obtain r where r: "snd ?q = Some r"
          using Inr Some classify_None [of env ev ?t1 "fst ?q"] by (cases "snd ?q") auto
        have c: "snd (classify env ev ?t1 (fst ?q) (Some r)) = Inr (Some e)"
          using Inr Some r by simp
        have oq: "opts (fst ?q) = opts s"
          using s1 by (simp add: advances_def)
        from classify_Some [OF c] oq
        have f: "?t1 = Some (evt_type e)" "reputation_finding ev e" "score_at_least_min (opts s) r"
          by simp_all
        have ty: "evt_type e \<in> set producedEvents"
          using t1 f(1) by (simp add: assignable_def)
        have "content ?res = Some (Json r)"
          using query_Some [OF r] by simp
        then have "at_least_min (opts s) ?res"
          using f(3) by (simp add: at_least_min_def)
        then have "\<forall>l. findings_ok (opts s) ev l (Fetch ?req ?res # Notify e # new)"
          using n(2) ty f(2) by simp
        with adv eq show ?thesis by auto
      qed
    qed
  qed
qed

lemma foldl_record_id:
  "foldl record_id s xs = s\<lparr>results := results s \<union> set xs, trace := trace s @ map Record xs\<rparr>"
  by (induction xs arbitrary: s) (simp_all add: record_id_def)

lemma netblock_not_ip: "startswith n ''NETBLOCK_'' \<Longrightarrow> n \<noteq> ''IP_ADDRESS''"
  by auto

text \<open>The state in which the queries of an event start, and the effects up to there.\<close>

lemma expand_effect:
  "expand env ev (record_id s (data ev)) = Inr (s2, qrylist) \<Longrightarrow>
   \<exists>xs. s2 = s\<lparr>results := insert (data ev) (results s) \<union> set xs,
                trace := trace s @ Record (data ev) # map Record xs\<rparr> \<and>
        (startswith (eventType ev) ''NETBLOCK_'' \<longrightarrow> IPNetwork env (data ev) = Some xs \<and> qrylist = xs)"
  by (auto simp: expand_def foldl_record_id record_id_def split: if_splits option.splits
      intro: exI [of _ "[]"])

lemma findings_ok_append:
  "findings_ok os ev l a \<Longrightarrow> (\<forall>l. findings_ok os ev l b) \<Longrightarrow> findings_ok os ev l (a @ b)"
  by (induction os ev l a rule: findings_ok.induct) simp_all

lemma queries_effect:
  assumes "eventType ev = ''IP_ADDRESS'' \<or> t = None"
  shows "\<exists>new. advances s2
     (fst (if eventType ev = ''IP_ADDRESS''
           then (case passive_dns env ev s2 of
                   (s3, Raised e) \<Rightarrow> (s3, Raised e)
                 | (s3, Returned) \<Rightarrow> targets_loop env ev (Some ''CO_HOSTED_SITE'') s3 qrylist)
           else targets_loop env ev t s2 qrylist)) new \<and>
     (\<forall>l. findings_ok (opts s2) ev l new)"
proof (cases "eventType ev = ''IP_ADDRESS''")
  case False
  then have "assignable t"
    using assms by (simp add: assignable_def)
  from targets_loop_effect [OF this, of s2 env ev qrylist] False show ?thesis
    by simp
next
  case True
  obtain res cohosts where p:
    "advances s2 (fst (passive_dns env ev s2))
       (Fetch (build_request env (opts s2) (data ev) ''passve_dns'') res # cohosts)"
    "list_all (is_cohost ev) cohosts"
    using passive_dns_effect by blast
  let ?f = "Fetch (build_request env (opts s2) (data ev) ''passve_dns'') res"
  let ?s3 = "fst (passive_dns env ev s2)"
  have ok1: "\<forall>l. findings_ok (opts s2) ev l (?f # cohosts)"
    using findings_ok_cohosts [OF p(2), of _ _ "[]"] by simp
  show ?thesis
  proof (cases "snd (passive_dns env ev s2)")
    case (Raised e)
    then show ?thesis
      using True p(1) ok1 by (auto simp: split_beta)
  next
    case Returned
    have "assignable (Some ''CO_HOSTED_SITE'')"
      by (simp add: assignable_def producedEvents_def)
    from targets_loop_effect [OF this, of ?s3 env ev qrylist]
    obtain new where n:
      "advances ?s3 (fst (targets_loop env ev (Some ''CO_HOSTED_SITE'') ?s3 qrylist)) new"
      "\<forall>l. findings_ok (opts ?s3) ev l new"
      by blast
    have o: "opts ?s3 = opts s2"
      using p(1) by (simp add: advances_def)
    have "\<forall>l. findings_ok (opts s2) ev l ((?f # cohosts) @ new)"
      using ok1 n(2) o by (simp add: findings_ok_append)
    moreover have "advances s2 (fst (targets_loop env ev (Some ''CO_HOSTED_SITE'') ?s3 qrylist))
        ((?f # cohosts) @ new)"
      by (rule advances_trans [OF p(1) n(1)])
    ultimately show ?thesis
      using True Returned by (auto simp: split_beta)
  qed
qed

lemma handleEvent_effect:
  "\<exists>new. trace (fst (handleEvent env s ev)) = trace s @ new \<and>
         opts (fst (handleEvent env s ev)) = opts s \<and>
         results s \<subseteq> results (fst (handleEvent env s ev)) \<and>
         (errorState (fst (handleEvent env s ev)) \<longleftrightarrow>
            errorState s \<or> apikey (opts s) = [] \<or> list_ex is_403 new) \<and>
         findings_ok (opts s) ev None new"
proof -
  let ?P = "\<lambda>s'. \<exists>new. trace s' = trace s @ new \<and> opts s' = opts s \<and> results s \<subseteq> results s' \<and>
         (errorState s' \<longleftrightarrow> errorState s \<or> apikey (opts s) = [] \<or> list_ex is_403 new) \<and>
         findings_ok (opts s) ev None new"
  consider (flagged) "errorState s"
    | (unset) "\<not> errorState s" "apikey (opts s) = []"
    | (seen) "\<not> errorState s" "apikey (opts s) \<noteq> []" "data ev \<in> results s"
    | (handled) "\<not> errorState s" "apikey (opts s) \<noteq> []" "data ev \<notin> results s"
    by blast
  then show ?thesis
  proof cases
    case flagged
    then have "fst (handleEvent env s ev) = s"
      by (simp add: handleEvent_def)
    moreover have "?P s"
      using flagged by (intro exI [of _ "[]"]) simp
    ultimately show ?thesis by simp
  next
    case unset
    then have "fst (handleEvent env s ev) = s\<lparr>errorState := True\<rparr>"
      by (simp add: handleEvent_def)
    moreover have "?P (s\<lparr>errorState := True\<rparr>)"
      using unset by (intro exI [of _ "[]"]) simp
    ultimately show ?thesis by simp
  next
    case seen
    then have "fst (handleEvent env s ev) = s"
      by (simp add: handleEvent_def)
    moreover have "?P s"
      using seen by (intro exI [of _ "[]"]) simp
    ultimately show ?thesis by simp
  next
    case handled
    let ?s1 = "record_id s (data ev)"
    show ?thesis
    proof (cases "expand env ev ?s1")
      case (Inl e)
      then have "fst (handleEvent env s ev) = ?s1"
        using handled by (simp add: handleEvent_def)
      moreover have "?P ?s1"
        using handled by (intro exI [of _ "[Record (data ev)]"]) (auto simp: record_id_def)
      ultimately show ?thesis by simp
    next
      case (Inr p)
      obtain s2 qrylist where p: "p = (s2, qrylist)" by (cases p)
      obtain xs where s2: "s2 = s\<lparr>results := insert (data ev) (results s) \<union> set xs,
                trace := trace s @ Record (data ev) # map Record xs\<rparr>"
        using expand_effect Inr p by blast
      let ?rest = "if eventType ev = ''IP_ADDRESS''
           then (case passive_dns env ev s2 of
                   (s3, Raised e) \<Rightarrow> (s3, Raised e)
                 | (s3, Returned) \<Rightarrow> targets_loop env ev (Some ''CO_HOSTED_SITE'') s3 qrylist)
           else targets_loop env ev None s2 qrylist"
      have eq: "handleEvent env s ev = ?rest"
        using handled Inr p by (simp add: handleEvent_def Let_def)
      obtain new where n: "advances s2 (fst ?rest) new" "\<forall>l. findings_ok (opts s2) ev l new"
        using queries_effect [of ev None s2 env qrylist] by blast
      have "findings_ok (opts s) ev None (map Record (data ev # xs) @ new)"
        unfolding findings_ok_records using n(2) s2 by simp
      then have "?P (fst ?rest)"
        using n(1) s2 handled
        by (intro exI [of _ "Record (data ev) # map Record xs @ new"])
           (auto simp: advances_def list_ex_iff)
      then show ?thesis
        using eq by simp
    qed
  qed
qed

section \<open>The error flag\<close>

lemma handleEvent_errorState: "errorState s \<Longrightarrow> handleEvent env s ev = (s, Returned)"
  by (simp add: handleEvent_def)

lemma handleEvents_errorState: "errorState s \<Longrightarrow> handleEvents env s evs = s"
  by (induction evs) (simp_all add: handleEvent_errorState)

lemma setup_plugin_errorState: "errorState (setup_plugin s u) = errorState s"
  by (simp add: setup_plugin_def)

lemma cycles_errorState:
  "errorState s \<Longrightarrow> cycles env s cs = foldl setup_plugin s (map fst cs)"
proof (induction cs arbitrary: s)
  case Nil
  then show ?case by simp
next
  case (Cons c cs)
  obtain u evs where c: "c = (u, evs)" by (cases c)
  have e: "errorState (setup_plugin s u)"
    using Cons.prems by (simp add: setup_plugin_errorState)
  show ?case
    using Cons.IH [OF e] by (simp add: c handleEvents_errorState [OF e])
qed

lemma foldl_setup_plugin:
  "errorState (foldl setup_plugin s us) = errorState s \<and>
   trace (foldl setup_plugin s us) = trace s \<and>
   tick (foldl setup_plugin s us) = tick s"
  by (induction us arbitrary: s) (simp_all add: setup_plugin_def)

text \<open>
  C9: if the configured credential is the empty string, the first incoming event is
  dropped (the call returns with nothing recorded, fetched or emitted), the error flag
  is set, and the whole run that starts with this event leaves the instance as that
  first call left it: no transport call is made for that event or any later one.
\<close>

theorem empty_credential_drops_run:
  assumes "apikey (opts s) = []"
  shows "handleEvent env s ev = (s\<lparr>errorState := True\<rparr>, Returned) \<and>
         handleEvents env s (ev # evs) = s\<lparr>errorState := True\<rparr>"
proof -
  have 1: "handleEvent env s ev = (s\<lparr>errorState := True\<rparr>, Returned)"
    using assms by (simp add: handleEvent_def)
  have "handleEvents env (s\<lparr>errorState := True\<rparr>) evs = s\<lparr>errorState := True\<rparr>"
    by (rule handleEvents_errorState) simp
  with 1 show ?thesis by simp
qed

theorem empty_credential_drops_run_witness:
  "apikey (opts init) = [] \<and>
   (handleEvent (ex_env (\<lambda>n r. reply pdns_body)) init ev_ip = (init\<lparr>errorState := True\<rparr>, Returned) \<and>
    handleEvents (ex_env (\<lambda>n r. reply pdns_body)) init (ev_ip # [ev_name, ev_netblock]) =
      init\<lparr>errorState := True\<rparr>)"
proof -
  have h: "apikey (opts init) = []"
    by (simp add: init_def default_opts_def)
  show ?thesis
    using h empty_credential_drops_run [OF h] by blast
qed

text \<open>
  C10: \<^verbatim>\<open>setup\<close> does not reset the error flag: it only replaces the dedup cache by an
  empty one and merges the options. So once the flag is set it is still set after
  \<^verbatim>\<open>setup\<close>, every event of the run that follows is dropped, and any number of further
  setup/run cycles of the same instance make no environment call and have no effect.
\<close>

theorem errorState_survives_setup:
  assumes "errorState s"
  shows "errorState (setup_plugin s u) \<and>
         results (setup_plugin s u) = {} \<and>
         opts (setup_plugin s u) = merge_opts (opts s) u \<and>
         handleEvents env (setup_plugin s u) evs = setup_plugin s u \<and>
         errorState (cycles env s cs) \<and> trace (cycles env s cs) = trace s \<and>
         tick (cycles env s cs) = tick s"
proof -
  have e: "errorState (setup_plugin s u)"
    using assms by (simp add: setup_plugin_errorState)
  have c: "cycles env s cs = foldl setup_plugin s (map fst cs)"
    using assms by (rule cycles_errorState)
  show ?thesis
    using e assms
    by (simp add: handleEvents_errorState c foldl_setup_plugin) (simp add: setup_plugin_def)
qed

theorem errorState_survives_setup_witness:
  "errorState after_403 \<and>
   (errorState (setup_plugin after_403 ex_userOpts) \<and>
    results (setup_plugin after_403 ex_userOpts) = {} \<and>
    opts (setup_plugin after_403 ex_userOpts) = merge_opts (opts after_403) ex_userOpts \<and>
    handleEvents (ex_env (\<lambda>n r. reply pdns_body)) (setup_plugin after_403 ex_userOpts) [ev_ip] =
      setup_plugin after_403 ex_userOpts \<and>
    errorState (cycles (ex_env (\<lambda>n r. reply pdns_body)) after_403 [(ex_userOpts, [ev_ip, ev_netblock])]) \<and>
    trace (cycles (ex_env (\<lambda>n r. reply pdns_body)) after_403 [(ex_userOpts, [ev_ip, ev_netblock])]) =
      trace after_403 \<and>
    tick (cycles (ex_env (\<lambda>n r. reply pdns_body)) after_403 [(ex_userOpts, [ev_ip, ev_netblock])]) =
      tick after_403)"
proof -
  have h: "errorState after_403"
    by (simp add: after_403_def handleEvent_def ready_def init_def default_opts_def ev_name_def
        record_id_def expand_def query_def build_request_def ex_env_def forbidden_def
        assign_evtType_def classify_def Let_def)
  show ?thesis
    using h errorState_survives_setup [OF h] by blast
qed

section \<open>What a finding carries\<close>

lemma effects_since_append: "trace s' = trace s @ new \<Longrightarrow> effects_since s s' = new"
  by (simp add: effects_since_def)






section \<open>A rejected credential\<close>

text \<open>
  C5 (as amended): once a transport response with status 403 is observed while an
  event is handled, the error flag is set when the call ends and stays set: every later
  event of the run is dropped, with no transport call. The targets of the event being
  handled that remain are still queried: after a 403 the loop over the targets goes on
  with the next target, the flag being read only on entry to the handler.
\<close>

theorem flag_set_by_403:
  "(list_ex is_403 (effects_since s (fst (handleEvent env s ev))) \<longrightarrow>
      errorState (fst (handleEvent env s ev)) \<and>
      handleEvents env' (fst (handleEvent env s ev)) evs = fst (handleEvent env s ev)) \<and>
   (\<not> checkForStop env (tick s0) \<and>
    code (fetchUrl env (Suc (tick s0)) (build_request env (opts s0) addr ''reputation'')) = Some ''403'' \<longrightarrow>
      (\<exists>s1. targets_loop env ev' t s0 (addr # rest) =
              targets_loop env ev' (assign_evtType (eventType ev') t) s1 rest \<and>
            errorState s1 \<and>
            effects_since s0 s1 =
              [Fetch (build_request env (opts s0) addr ''reputation'')
                 (fetchUrl env (Suc (tick s0)) (build_request env (opts s0) addr ''reputation''))]))"
proof -
  let ?s' = "fst (handleEvent env s ev)"
  obtain new where n: "trace ?s' = trace s @ new"
      "errorState ?s' \<longleftrightarrow> errorState s \<or> apikey (opts s) = [] \<or> list_ex is_403 new"
    using handleEvent_effect [of env s ev] by blast
  have e: "effects_since s ?s' = new"
    using n(1) by (rule effects_since_append)
  have 1: "list_ex is_403 (effects_since s ?s') \<longrightarrow>
      errorState ?s' \<and> handleEvents env' ?s' evs = ?s'"
    using n(2) e by (simp add: handleEvents_errorState)
  let ?req = "build_request env (opts s0) addr ''reputation''"
  let ?res = "fetchUrl env (Suc (tick s0)) ?req"
  let ?s1 = "s0\<lparr>tick := Suc (Suc (tick s0)), trace := trace s0 @ [Fetch ?req ?res], errorState := True\<rparr>"
  have 2: "\<not> checkForStop env (tick s0) \<and> code ?res = Some ''403'' \<longrightarrow>
      targets_loop env ev' t s0 (addr # rest) =
        targets_loop env ev' (assign_evtType (eventType ev') t) ?s1 rest \<and>
      errorState ?s1 \<and> effects_since s0 ?s1 = [Fetch ?req ?res]"
    by (simp add: query_def classify_def Let_def effects_since_def)
  from 1 2 show ?thesis by blast
qed

theorem flag_set_by_403_witness:
  "list_ex is_403 (effects_since ready (fst (handleEvent (ex_env (\<lambda>n r. forbidden)) ready ev_netblock))) \<and>
   errorState (fst (handleEvent (ex_env (\<lambda>n r. forbidden)) ready ev_netblock)) \<and>
   handleEvents (ex_env otx_service) (fst (handleEvent (ex_env (\<lambda>n r. forbidden)) ready ev_netblock))
     [ev_ip, ev_name] = fst (handleEvent (ex_env (\<lambda>n r. forbidden)) ready ev_netblock) \<and>
   \<not> checkForStop (ex_env (\<lambda>n r. forbidden)) (tick ready) \<and>
   code (fetchUrl (ex_env (\<lambda>n r. forbidden)) (Suc (tick ready))
           (build_request (ex_env (\<lambda>n r. forbidden)) (opts ready) ''10.0.0.0'' ''reputation'')) = Some ''403'' \<and>
   (\<exists>s1. targets_loop (ex_env (\<lambda>n r. forbidden)) ev_netblock None ready (''10.0.0.0'' # [''10.0.0.1'']) =
           targets_loop (ex_env (\<lambda>n r. forbidden)) ev_netblock
             (assign_evtType (eventType ev_netblock) None) s1 [''10.0.0.1''] \<and>
         errorState s1 \<and>
         effects_since ready s1 =
           [Fetch (build_request (ex_env (\<lambda>n r. forbidden)) (opts ready) ''10.0.0.0'' ''reputation'')
              (fetchUrl (ex_env (\<lambda>n r. forbidden)) (Suc (tick ready))
                 (build_request (ex_env (\<lambda>n r. forbidden)) (opts ready) ''10.0.0.0'' ''reputation''))])"
proof -
  let ?E = "ex_env (\<lambda>n r. forbidden)"
  have h1: "list_ex is_403 (effects_since ready (fst (handleEvent ?E ready ev_netblock)))"
    by (simp add: eval_defs effects_since_def)
  have h2: "\<not> checkForStop ?E (tick ready)"
    "code (fetchUrl ?E (Suc (tick ready)) (build_request ?E (opts ready) ''10.0.0.0'' ''reputation''))
       = Some ''403''"
    by (simp_all add: ex_env_def forbidden_def)
  show ?thesis
    using h1 h2
      flag_set_by_403 [of ready ?E ev_netblock "ex_env otx_service" "[ev_ip, ev_name]" ready
        "''10.0.0.0''" ev_netblock None "[''10.0.0.1'']"]
    by blast
qed

text \<open>
  C5 as stated fails: for a netblock of two addresses and a transport that answers 403,
  the second address is queried after the 403 for the first.
\<close>

theorem queries_after_403_counterexample:
  "handleEvent (ex_env (\<lambda>n r. forbidden)) ready ev_netblock =
     (ready\<lparr>results := {''10.0.0.0/31'', ''10.0.0.0'', ''10.0.0.1''}, errorState := True, tick := 4,
        trace :=
          [Record ''10.0.0.0/31'', Record ''10.0.0.0'', Record ''10.0.0.1'',
           Fetch (ex_request ''https://otx.alienvault.com:443/api/v1/indicators/IPv4/10.0.0.0/reputation'')
             forbidden,
           Fetch (ex_request ''https://otx.alienvault.com:443/api/v1/indicators/IPv4/10.0.0.1/reputation'')
             forbidden]\<rparr>,
      Returned)"
  by (simp add: eval_defs insert_commute)

section \<open>The score threshold\<close>

text \<open>
  C7: when the reputation record returned for a target has a threat score strictly
  below the configured minimum, whatever its activities are, the loop over the targets
  goes on to the remaining targets from a state that differs by the transport call
  alone: no finding is emitted for that identifier.
\<close>

theorem below_threshold_no_finding:
  assumes "\<not> checkForStop env (tick s)"
    and "fetchUrl env (Suc (tick s)) (build_request env (opts s) addr ''reputation'') = res"
    and "code res \<noteq> Some ''403''" and "code res \<noteq> Some ''404''"
    and "content res = Some (Json (JDict r))"
    and "map_of r ''reputation'' = Some (JDict rep)"
    and "map_of rep ''threat_score'' = Some (JInt score)"
    and "score < threat_score_min (opts s)"
  shows "\<exists>s1. targets_loop env ev t s (addr # rest) =
              targets_loop env ev (assign_evtType (eventType ev) t) s1 rest \<and>
            effects_since s s1 = [Fetch (build_request env (opts s) addr ''reputation'') res] \<and>
            opts s1 = opts s \<and> results s1 = results s \<and> errorState s1 = errorState s"
proof -
  let ?req = "build_request env (opts s) addr ''reputation''"
  let ?s1 = "s\<lparr>tick := Suc (Suc (tick s)), trace := trace s @ [Fetch ?req res]\<rparr>"
  have "rep \<noteq> []"
    using assms(7) by auto
  then have "targets_loop env ev t s (addr # rest) =
      targets_loop env ev (assign_evtType (eventType ev) t) ?s1 rest"
    using assms by (simp add: query_def classify_def Let_def)
  moreover have "effects_since s ?s1 = [Fetch ?req res]"
    by (simp add: effects_since_def)
  ultimately show ?thesis
    by (intro exI [of _ ?s1]) simp
qed

theorem below_threshold_no_finding_witness:
  "\<not> checkForStop (ex_env (\<lambda>n r. reply (reputation_body 1 [activity ''Scanning Host'' ''2026-11-01T00:00:00'']))) (tick ready) \<and>
   code (reply (reputation_body 1 [activity ''Scanning Host'' ''2026-11-01T00:00:00''])) \<noteq> Some ''403'' \<and>
   code (reply (reputation_body 1 [activity ''Scanning Host'' ''2026-11-01T00:00:00''])) \<noteq> Some ''404'' \<and>
   (1::int) < threat_score_min (opts ready) \<and>
   (\<exists>s1. targets_loop
            (ex_env (\<lambda>n r. reply (reputation_body 1 [activity ''Scanning Host'' ''2026-11-01T00:00:00''])))
            ev_name None ready (''example.org'' # []) =
          targets_loop
            (ex_env (\<lambda>n r. reply (reputation_body 1 [activity ''Scanning Host'' ''2026-11-01T00:00:00''])))
            ev_name (assign_evtType (eventType ev_name) None) s1 [] \<and>
          effects_since ready s1 =
            [Fetch (build_request
                      (ex_env (\<lambda>n r. reply (reputation_body 1 [activity ''Scanning Host'' ''2026-11-01T00:00:00''])))
                      (opts ready) ''example.org'' ''reputation'')
               (reply (reputation_body 1 [activity ''Scanning Host'' ''2026-11-01T00:00:00'']))] \<and>
          opts s1 = opts ready \<and> results s1 = results ready \<and> errorState s1 = errorState ready)"
proof -
  let ?res = "reply (reputation_body 1 [activity ''Scanning Host'' ''2026-11-01T00:00:00''])"
  let ?E = "ex_env (\<lambda>n r. ?res)"
  let ?rep = "[(''threat_score'', JInt 1),
               (''activities'', JList [activity ''Scanning Host'' ''2026-11-01T00:00:00''])]"
  have h1: "\<not> checkForStop ?E (tick ready)"
    by (simp add: ex_env_def)
  have h2: "fetchUrl ?E (Suc (tick ready)) (build_request ?E (opts ready) ''example.org'' ''reputation'') = ?res"
    by (simp add: ex_env_def)
  have h3: "code ?res \<noteq> Some ''403''" "code ?res \<noteq> Some ''404''"
    by (simp_all add: reply_def)
  have h4: "content ?res = Some (Json (JDict [(''reputation'', JDict ?rep)]))"
    by (simp add: reply_def reputation_body_def)
  have h5: "map_of [(''reputation'', JDict ?rep)] ''reputation'' = Some (JDict ?rep)"
    "map_of ?rep ''threat_score'' = Some (JInt 1)"
    by simp_all
  have h6: "(1::int) < threat_score_min (opts ready)"
    by (simp add: ready_def init_def default_opts_def)
  show ?thesis
    using h1 h3 h6
      below_threshold_no_finding [OF h1 h2 h3 h4 h5 h6, of ev_name None "[]"]
    by blast
qed

section \<open>The dedup cache\<close>

text \<open>
  What the cache does ensure: an event whose identifier is already in the dedup cache
  is dropped with no effect at all, so with no transport call; and when a netblock
  event is expanded, the netblock and every member address are recorded in the cache
  before any transport call of that event, all of which are made by the loop over the
  targets that starts from that state.
\<close>

lemma dedup_hit_and_netblock_marking:
  "(data ev \<in> results s \<longrightarrow>
      snd (handleEvent env s ev) = Returned \<and>
      effects_since s (fst (handleEvent env s ev)) = [] \<and>
      results (fst (handleEvent env s ev)) = results s) \<and>
   (\<not> errorState s0 \<and> apikey (opts s0) \<noteq> [] \<and> data ev0 \<notin> results s0 \<and>
    startswith (eventType ev0) ''NETBLOCK_'' \<and> IPNetwork env (data ev0) = Some addrs \<longrightarrow>
      (\<exists>s2 rest.
         handleEvent env s0 ev0 = targets_loop env ev0 None s2 addrs \<and>
         effects_since s0 s2 = Record (data ev0) # map Record addrs \<and>
         results s2 = insert (data ev0) (results s0) \<union> set addrs \<and>
         effects_since s0 (fst (handleEvent env s0 ev0)) =
           Record (data ev0) # map Record addrs @ rest \<and>
         insert (data ev0) (results s0) \<union> set addrs \<subseteq> results (fst (handleEvent env s0 ev0))))"
proof -
  have 1: "data ev \<in> results s \<longrightarrow>
      snd (handleEvent env s ev) = Returned \<and>
      effects_since s (fst (handleEvent env s ev)) = [] \<and>
      results (fst (handleEvent env s ev)) = results s"
    by (simp add: handleEvent_def effects_since_def)
  have 2: "\<exists>s2 rest.
         handleEvent env s0 ev0 = targets_loop env ev0 None s2 addrs \<and>
         effects_since s0 s2 = Record (data ev0) # map Record addrs \<and>
         results s2 = insert (data ev0) (results s0) \<union> set addrs \<and>
         effects_since s0 (fst (handleEvent env s0 ev0)) =
           Record (data ev0) # map Record addrs @ rest \<and>
         insert (data ev0) (results s0) \<union> set addrs \<subseteq> results (fst (handleEvent env s0 ev0))"
    if h: "\<not> errorState s0" "apikey (opts s0) \<noteq> []" "data ev0 \<notin> results s0"
      "startswith (eventType ev0) ''NETBLOCK_''" "IPNetwork env (data ev0) = Some addrs"
  proof -
    let ?s2 = "foldl record_id (record_id s0 (data ev0)) addrs"
    have ip: "eventType ev0 \<noteq> ''IP_ADDRESS''"
      using h(4) by (rule netblock_not_ip)
    have eq: "handleEvent env s0 ev0 = targets_loop env ev0 None ?s2 addrs"
      using h ip by (simp add: handleEvent_def expand_def Let_def)
    have s2: "?s2 = s0\<lparr>results := insert (data ev0) (results s0) \<union> set addrs,
                      trace := trace s0 @ Record (data ev0) # map Record addrs\<rparr>"
      by (simp add: foldl_record_id record_id_def)
    have "assignable None"
      by (simp add: assignable_def)
    from targets_loop_effect [OF this, of ?s2 env ev0 addrs]
    obtain rest where r: "advances ?s2 (fst (targets_loop env ev0 None ?s2 addrs)) rest"
      by blast
    have a: "effects_since s0 ?s2 = Record (data ev0) # map Record addrs"
      by (simp add: s2 effects_since_def)
    have b: "effects_since s0 (fst (handleEvent env s0 ev0)) =
        Record (data ev0) # map Record addrs @ rest"
      using r by (simp add: eq advances_def s2 effects_since_def)
    have c: "results (fst (handleEvent env s0 ev0)) = insert (data ev0) (results s0) \<union> set addrs"
      using r by (simp add: eq advances_def s2)
    show ?thesis
      using eq a b c s2 by (intro exI [of _ ?s2] exI [of _ rest]) simp
  qed
  from 1 2 show ?thesis by blast
qed

text \<open>
  C8: an identifier is to be queried for reputation at most once per run. After an
  affiliate-address event has recorded 10.0.0.1 in the cache and queried it, a netblock
  event for 10.0.0.0/31 queries 10.0.0.1 a second time: the expansion records the
  members of the block and never consults the cache for them.
\<close>

theorem netblock_member_queried_twice:
  "handleEvents (ex_env (\<lambda>n r. reply (reputation_body 0 []))) ready [ev_affiliate, ev_netblock] =
     ready\<lparr>results := {''10.0.0.1'', ''10.0.0.0/31'', ''10.0.0.0''}, tick := 6,
       trace :=
         [Record ''10.0.0.1'',
          Fetch (ex_request ''https://otx.alienvault.com:443/api/v1/indicators/IPv4/10.0.0.1/reputation'')
            (reply (reputation_body 0 [])),
          Record ''10.0.0.0/31'', Record ''10.0.0.0'', Record ''10.0.0.1'',
          Fetch (ex_request ''https://otx.alienvault.com:443/api/v1/indicators/IPv4/10.0.0.0/reputation'')
            (reply (reputation_body 0 [])),
          Fetch (ex_request ''https://otx.alienvault.com:443/api/v1/indicators/IPv4/10.0.0.1/reputation'')
            (reply (reputation_body 0 []))]\<rparr> \<and>
   ''10.0.0.1'' \<in> results (fst (handleEvent (ex_env (\<lambda>n r. reply (reputation_body 0 []))) ready ev_affiliate))"
  by (simp add: eval_defs insert_commute)

section \<open>Timestamps\<close>

text \<open>
  Where a loop reaches an entry whose timestamp (the empty string when the field is
  missing) does not parse, it stops with the exception of \<^verbatim>\<open>strptime\<close>, whatever
  entries follow; and the handling of an event with one target whose record reaches the
  score threshold then raises after its transport call, with no finding.
\<close>

lemma malformed_timestamp_raises:
  "(map_of entry ''hostname'' \<noteq> None \<and>
    strptime_ts env (case map_of entry ''last'' of None \<Rightarrow> JStr [] | Some v \<Rightarrow> v)
      ''%Y-%m-%d %H:%M:%S'' = Inl e \<longrightarrow>
      pdns_loop env ev s (JDict entry # recs) = (s, Raised e)) \<and>
   ((map_of act ''name'' = None \<or> map_of act ''name'' = Some (JStr nm)) \<and>
    strptime_ts env (case map_of act ''last_date'' of None \<Rightarrow> JStr [] | Some v \<Rightarrow> v)
      ''%Y-%m-%dT%H:%M:%S'' = Inl e' \<longrightarrow>
      activities_loop env s descr (JDict act # acts) = (s, Inl e') \<and>
      (\<not> errorState s0 \<and> apikey (opts s0) \<noteq> [] \<and> data ev0 \<notin> results s0 \<and>
       \<not> startswith (eventType ev0) ''NETBLOCK_'' \<and> eventType ev0 \<noteq> ''IP_ADDRESS'' \<and>
       \<not> checkForStop env (tick s0) \<and>
       fetchUrl env (Suc (tick s0)) (build_request env (opts s0) (data ev0) ''reputation'') = res \<and>
       code res \<noteq> Some ''403'' \<and> code res \<noteq> Some ''404'' \<and>
       content res = Some (Json (JDict r)) \<and>
       map_of r ''reputation'' = Some (JDict rep) \<and>
       map_of rep ''threat_score'' = Some (JInt score) \<and> threat_score_min (opts s0) \<le> score \<and>
       map_of rep ''activities'' = Some (JList (JDict act # acts)) \<longrightarrow>
         snd (handleEvent env s0 ev0) = Raised e' \<and>
         effects_since s0 (fst (handleEvent env s0 ev0)) =
           [Record (data ev0), Fetch (build_request env (opts s0) (data ev0) ''reputation'') res]))"
proof -
  have 1: "map_of entry ''hostname'' \<noteq> None \<and>
    strptime_ts env (case map_of entry ''last'' of None \<Rightarrow> JStr [] | Some v \<Rightarrow> v)
      ''%Y-%m-%d %H:%M:%S'' = Inl e \<longrightarrow>
      pdns_loop env ev s (JDict entry # recs) = (s, Raised e)"
    by simp
  have 2: "activities_loop env s1 descr (JDict act # acts) = (s1, Inl e')"
    if "map_of act ''name'' = None \<or> map_of act ''name'' = Some (JStr nm)"
      "strptime_ts env (case map_of act ''last_date'' of None \<Rightarrow> JStr [] | Some v \<Rightarrow> v)
         ''%Y-%m-%dT%H:%M:%S'' = Inl e'" for descr s1
    using that by auto
  have 3: "snd (handleEvent env s0 ev0) = Raised e' \<and>
         effects_since s0 (fst (handleEvent env s0 ev0)) =
           [Record (data ev0), Fetch (build_request env (opts s0) (data ev0) ''reputation'') res]"
    if a: "map_of act ''name'' = None \<or> map_of act ''name'' = Some (JStr nm)"
      "strptime_ts env (case map_of act ''last_date'' of None \<Rightarrow> JStr [] | Some v \<Rightarrow> v)
         ''%Y-%m-%dT%H:%M:%S'' = Inl e'"
      and h: "\<not> errorState s0" "apikey (opts s0) \<noteq> []" "data ev0 \<notin> results s0"
        "\<not> startswith (eventType ev0) ''NETBLOCK_''" "eventType ev0 \<noteq> ''IP_ADDRESS''"
        "\<not> checkForStop env (tick s0)"
        "fetchUrl env (Suc (tick s0)) (build_request env (opts s0) (data ev0) ''reputation'') = res"
        "code res \<noteq> Some ''403''" "code res \<noteq> Some ''404''"
        "content res = Some (Json (JDict r))"
      and b: "map_of r ''reputation'' = Some (JDict rep)"
        "map_of rep ''threat_score'' = Some (JInt score)" "threat_score_min (opts s0) \<le> score"
        "map_of rep ''activities'' = Some (JList (JDict act # acts))"
  proof -
    have "rep \<noteq> []" using b(2) by auto
    then show ?thesis
      using h b 2 [OF a]
      by (simp add: handleEvent_def expand_def record_id_def query_def classify_def Let_def
          effects_since_def del: activities_loop.simps)
  qed
  from 1 2 3 show ?thesis by blast
qed

text \<open>
  C3: an activity whose timestamp is missing, or has the shape that the comment in the
  source gives for it (with milliseconds, which the format does not accept), is not
  discarded: \<^verbatim>\<open>strptime\<close> raises \<^verbatim>\<open>ValueError\<close>, nothing catches it, the call raises
  to its caller before the well-formed activity after it is processed, and no finding is
  emitted.
\<close>

theorem unparsed_timestamp_raises:
  "handleEvent
     (ex_env (\<lambda>n r. reply (reputation_body 5
        [JDict [(''name'', JStr ''Scanning Host'')], activity ''Malware Host'' ''2026-11-01T00:00:00''])))
     ready ev_name =
     (ready\<lparr>results := {''example.org''}, tick := 2,
        trace :=
          [Record ''example.org'',
           Fetch (ex_request ''https://otx.alienvault.com:443/api/v1/indicators/hostname/example.org/reputation'')
             (reply (reputation_body 5
                [JDict [(''name'', JStr ''Scanning Host'')], activity ''Malware Host'' ''2026-11-01T00:00:00'']))]\<rparr>,
      Raised ValueError) \<and>
   handleEvent
     (ex_env (\<lambda>n r. reply (reputation_body 5
        [activity ''Scanning Host'' ''2014-11-06T10:45:00.000'', activity ''Malware Host'' ''2026-11-01T00:00:00''])))
     ready ev_name =
     (ready\<lparr>results := {''example.org''}, tick := 2,
        trace :=
          [Record ''example.org'',
           Fetch (ex_request ''https://otx.alienvault.com:443/api/v1/indicators/hostname/example.org/reputation'')
             (reply (reputation_body 5
                [activity ''Scanning Host'' ''2014-11-06T10:45:00.000'',
                 activity ''Malware Host'' ''2026-11-01T00:00:00'']))]\<rparr>,
      Raised ValueError)"
  by (simp add: eval_defs)

section \<open>Where the code departs from its description\<close>

text \<open>
  C1: for an \<^verbatim>\<open>IP_ADDRESS\<close> event the lookup kind is misspelled, so \<open>query\<close> coerces it
  to a reputation lookup. Against a service that holds a passive-DNS record with one
  recent hostname for the address, the passive-DNS path is never requested (both calls
  go to the reputation path) and no co-hosted-site finding is emitted; the only finding
  is the reputation finding.
\<close>

theorem passive_dns_lookup_misspelled:
  "handleEvent (ex_env otx_service) ready ev_ip =
     (ready\<lparr>results := {''203.0.113.5''}, tick := 4,
        trace :=
          [Record ''203.0.113.5'',
           Fetch (ex_request ''https://otx.alienvault.com:443/api/v1/indicators/IPv4/203.0.113.5/reputation'')
             (reply (reputation_body 5 [activity ''Scanning Host'' ''2026-11-01T00:00:00''])),
           Fetch (ex_request ''https://otx.alienvault.com:443/api/v1/indicators/IPv4/203.0.113.5/reputation'')
             (reply (reputation_body 5 [activity ''Scanning Host'' ''2026-11-01T00:00:00''])),
           Notify \<lparr>evt_type = ''MALICIOUS_IPADDR'',
                   evt_data = JStr (''Threat Score: 5:'' @ [CHR 0x0A] @ '' - Scanning Host''),
                   evt_module = ''sfp_alienvault'', sourceEvent = ev_ip\<rparr>]\<rparr>,
      Returned)"
  by (simp add: eval_defs)

text \<open>
  C2: with the age limit at 30 days and the clock at 2026-11-04, an activity last seen
  on 2000-01-01 is older than the limit, and its name is in the description all the
  same: the name is appended before the age is tested.
\<close>

theorem old_activity_named_in_description:
  "age_limit_days (opts ready) = 30 \<and>
   too_old (opts ready) 1793750400 946684800 \<and>
   handleEvent
     (ex_env (\<lambda>n r. reply (reputation_body 5 [activity ''Old Scanner'' ''2000-01-01T00:00:00''])))
     ready ev_name =
     (ready\<lparr>results := {''example.org''}, tick := 3,
        trace :=
          [Record ''example.org'',
           Fetch (ex_request ''https://otx.alienvault.com:443/api/v1/indicators/hostname/example.org/reputation'')
             (reply (reputation_body 5 [activity ''Old Scanner'' ''2000-01-01T00:00:00''])),
           Notify \<lparr>evt_type = ''MALICIOUS_INTERNET_NAME'',
                   evt_data = JStr (''Threat Score: 5:'' @ [CHR 0x0A] @ '' - Old Scanner''),
                   evt_module = ''sfp_alienvault'', sourceEvent = ev_name\<rparr>]\<rparr>,
      Returned)"
  by (simp add: eval_defs)

text \<open>
  C6: \<^verbatim>\<open>IPV6_ADDRESS\<close> is a watched event type, and none of the conditionals assigns
  \<^verbatim>\<open>evtType\<close> for it. With a record that reaches the score threshold, the call raises
  \<^verbatim>\<open>UnboundLocalError\<close> where the finding would be built, and emits nothing.
\<close>

theorem ipv6_event_reads_unassigned_evtType:
  "eventType ev_ipv6 \<in> set watchedEvents \<and>
   assign_evtType (eventType ev_ipv6) None = None \<and>
   handleEvent (ex_env (\<lambda>n r. reply (reputation_body 5 []))) ready ev_ipv6 =
     (ready\<lparr>results := {''2001:db8::1''}, tick := 2,
        trace :=
          [Record ''2001:db8::1'',
           Fetch (ex_request ''https://otx.alienvault.com:443/api/v1/indicators/IPv6/2001:db8::1/reputation'')
             (reply (reputation_body 5 []))]\<rparr>,
      Raised UnboundLocalError)"
  by (simp add: eval_defs watchedEvents_def)


end
